theory Spec2Isabelle
  imports Main "HOL-Library.AList"
begin

section \<open>The performance cache service: data model\<close>

text \<open>
  The embedding follows \<^verbatim>\<open>PerformanceCacheService\<close> (src/unnamed/part_005).

  \<^item> A cached payload (\<^verbatim>\<open>data: any\<close>) is represented by the text that
    \<^verbatim>\<open>JSON.stringify\<close> produces for it, or by \<open>Unserializable\<close> when
    \<^verbatim>\<open>JSON.stringify\<close> throws on it (a cyclic object, a BigInt).
  \<^item> \<^verbatim>\<open>Date.now()\<close> is the parameter \<open>now\<close> of an operation (one reading per call).
  \<^item> The hot tier is a JavaScript \<^verbatim>\<open>Map\<close>, which iterates in insertion order and keeps the
    position of a key that is assigned again: an association list with \<open>AList.update\<close>
    (replace in place, else append) and \<open>AList.delete\<close>.
  \<^item> The durable tier (\<^verbatim>\<open>AsyncStorage\<close>) is an association list from keys to what
    \<^verbatim>\<open>JSON.parse\<close> makes of the stored text: a record, or \<open>Corrupt\<close> when parsing throws.
  \<^item> Every call to \<^verbatim>\<open>AsyncStorage\<close> may throw; the parameter \<open>io\<close> says which calls do.
  \<^item> Timers and console output are not modelled.
\<close>

datatype Priority = High | Medium | Low

datatype jsvalue = Json string | Unserializable

record CacheConfig =
  cfg_ttl :: int
  maxSize :: nat
  cfg_priority :: Priority
  persist :: bool

record CacheItem =
  data :: jsvalue
  timestamp :: int
  ttl :: int
  priority :: Priority
  accessCount :: int
  lastAccessed :: int
  item_size :: "int option"

datatype persisted = Corrupt | Stored CacheItem

datatype io_op = GetAllKeys | GetItem string | SetItem string | RemoveItem string | MultiRemove

datatype AppStateStatus = Active | Background | Inactive

record Stats =
  hits :: nat
  misses :: nat
  evictions :: nat
  totalRequests :: nat
  errors :: nat

record state =
  memoryCache :: "(string \<times> CacheItem) list"
  cacheStats :: Stats
  isInitialized :: bool
  maxMemorySize :: int
  currentMemorySize :: int
  configs :: "(string \<times> CacheConfig) list"
  asyncStorage :: "(string \<times> persisted) list"

definition CACHE_CONFIGS :: "(string \<times> CacheConfig) list" where
  "CACHE_CONFIGS =
    [(''user'', \<lparr>cfg_ttl = 24 * 60 * 60 * 1000, maxSize = 1, cfg_priority = High, persist = True\<rparr>),
     (''appointments'', \<lparr>cfg_ttl = 5 * 60 * 1000, maxSize = 100, cfg_priority = High, persist = True\<rparr>),
     (''services'', \<lparr>cfg_ttl = 30 * 60 * 1000, maxSize = 50, cfg_priority = Medium, persist = True\<rparr>),
     (''providers'', \<lparr>cfg_ttl = 15 * 60 * 1000, maxSize = 200, cfg_priority = Medium, persist = True\<rparr>),
     (''shops'', \<lparr>cfg_ttl = 60 * 60 * 1000, maxSize = 100, cfg_priority = Low, persist = False\<rparr>),
     (''analytics'', \<lparr>cfg_ttl = 10 * 60 * 1000, maxSize = 20, cfg_priority = Low, persist = False\<rparr>),
     (''images'', \<lparr>cfg_ttl = 60 * 60 * 1000, maxSize = 50, cfg_priority = Medium, persist = False\<rparr>)]"

text \<open>The service as its field initialisers leave it, over a given durable store.\<close>

definition new_service :: "(string \<times> persisted) list \<Rightarrow> state" where
  "new_service store =
    \<lparr>memoryCache = [],
     cacheStats = \<lparr>hits = 0, misses = 0, evictions = 0, totalRequests = 0, errors = 0\<rparr>,
     isInitialized = False,
     maxMemorySize = 50 * 1024 * 1024,
     currentMemorySize = 0,
     configs = CACHE_CONFIGS,
     asyncStorage = store\<rparr>"

section \<open>Keys, configuration, expiry, sizes\<close>

definition generateKey :: "string \<Rightarrow> string \<Rightarrow> string" where
  "generateKey namespace key = ''cache:'' @ namespace @ '':'' @ key"

text \<open>\<^verbatim>\<open>cacheKey.split(':')\<close>: always at least one part.\<close>

fun split_colon :: "string \<Rightarrow> string list" where
  "split_colon [] = [[]]"
| "split_colon (c # cs) =
     (if c = CHR '':'' then [] # split_colon cs
      else (case split_colon cs of [] \<Rightarrow> [[c]] | p # ps \<Rightarrow> (c # p) # ps))"

text \<open>\<^verbatim>\<open>parts[1] || 'default'\<close>: a missing or empty second part gives \<open>default\<close>.\<close>

definition getNamespaceFromKey :: "string \<Rightarrow> string" where
  "getNamespaceFromKey cacheKey =
     (case split_colon cacheKey of
        _ # p # _ \<Rightarrow> if p = [] then ''default'' else p
      | _ \<Rightarrow> ''default'')"

definition startsWith_cache :: "string \<Rightarrow> bool" where
  "startsWith_cache key = (take 6 key = ''cache:'')"

definition getConfig :: "state \<Rightarrow> string \<Rightarrow> CacheConfig" where
  "getConfig s namespace =
     (case map_of (configs s) namespace of
        Some c \<Rightarrow> c
      | None \<Rightarrow> \<lparr>cfg_ttl = 5 * 60 * 1000, maxSize = 50, cfg_priority = Medium, persist = False\<rparr>)"

definition isExpired :: "int \<Rightarrow> CacheItem \<Rightarrow> bool" where
  "isExpired now item = (now - timestamp item > ttl item)"

text \<open>The size of the UTF-8 text in a \<^verbatim>\<open>Blob\<close>; 1024 when serialisation throws.\<close>

definition estimateSize :: "jsvalue \<Rightarrow> int" where
  "estimateSize d = (case d of Json jsonString \<Rightarrow> int (length jsonString) | Unserializable \<Rightarrow> 1024)"

text \<open>\<^verbatim>\<open>item.size || this.estimateSize(item.data)\<close>: a missing or zero size is estimated.\<close>

definition sizeOf :: "CacheItem \<Rightarrow> int" where
  "sizeOf item =
     (case item_size item of
        Some n \<Rightarrow> if n \<noteq> 0 then n else estimateSize (data item)
      | None \<Rightarrow> estimateSize (data item))"

definition namespaceItems :: "state \<Rightarrow> string \<Rightarrow> (string \<times> CacheItem) list" where
  "namespaceItems s namespace =
     filter (\<lambda>(k, _). getNamespaceFromKey k = namespace) (memoryCache s)"

definition canAddToMemory :: "state \<Rightarrow> string \<Rightarrow> CacheItem \<Rightarrow> bool" where
  "canAddToMemory s key item =
     (let namespace = getNamespaceFromKey key;
          config = getConfig s namespace
      in if length (namespaceItems s namespace) \<ge> maxSize config then False
         else currentMemorySize s + sizeOf item \<le> maxMemorySize s)"

definition updateMemorySize :: "string \<Rightarrow> CacheItem \<Rightarrow> CacheItem option \<Rightarrow> state \<Rightarrow> state" where
  "updateMemorySize key item oldItem s =
     (let newSize = sizeOf item;
          oldSize = (case oldItem of Some old \<Rightarrow> sizeOf old | None \<Rightarrow> 0)
      in s\<lparr>currentMemorySize := currentMemorySize s + (newSize - oldSize)\<rparr>)"

definition updateAccess :: "int \<Rightarrow> CacheItem \<Rightarrow> CacheItem" where
  "updateAccess now item = item\<lparr>accessCount := accessCount item + 1, lastAccessed := now\<rparr>"

section \<open>Eviction and footprint reduction\<close>

definition priorityOrder :: "Priority \<Rightarrow> int" where
  "priorityOrder p = (case p of Low \<Rightarrow> 0 | Medium \<Rightarrow> 1 | High \<Rightarrow> 2)"

definition compareItems :: "string \<times> CacheItem \<Rightarrow> string \<times> CacheItem \<Rightarrow> int" where
  "compareItems a b =
     (let priorityDiff = priorityOrder (priority (snd a)) - priorityOrder (priority (snd b))
      in if priorityDiff \<noteq> 0 then priorityDiff
         else let accessDiff = lastAccessed (snd a) - lastAccessed (snd b)
              in if accessDiff \<noteq> 0 then accessDiff
                 else accessCount (snd a) - accessCount (snd b))"

text \<open>\<^verbatim>\<open>Array.prototype.sort\<close> with a comparator: a stable sort.\<close>

fun insert_by :: "('a \<Rightarrow> 'a \<Rightarrow> int) \<Rightarrow> 'a \<Rightarrow> 'a list \<Rightarrow> 'a list" where
  "insert_by cmp x [] = [x]"
| "insert_by cmp x (y # ys) = (if cmp x y \<le> 0 then x # y # ys else y # insert_by cmp x ys)"

definition sort_by :: "('a \<Rightarrow> 'a \<Rightarrow> int) \<Rightarrow> 'a list \<Rightarrow> 'a list" where
  "sort_by cmp xs = foldr (insert_by cmp) xs []"

definition evictOne :: "state \<Rightarrow> string \<times> CacheItem \<Rightarrow> state" where
  "evictOne s e =
     (let s1 = s\<lparr>memoryCache := AList.delete (fst e) (memoryCache s)\<rparr>;
          s2 = updateMemorySize (fst e) (snd e) None s1
      in s2\<lparr>cacheStats := (cacheStats s2)\<lparr>evictions := evictions (cacheStats s2) + 1\<rparr>\<rparr>)"

definition evictItems :: "string \<Rightarrow> nat \<Rightarrow> state \<Rightarrow> state" where
  "evictItems namespace maxSize' s =
     (let nsItems = namespaceItems s namespace
      in if length nsItems \<le> maxSize' then s
         else let itemsToRemove = take (length nsItems - maxSize') (sort_by compareItems nsItems)
              in foldl evictOne s itemsToRemove)"

definition keepOne :: "state \<Rightarrow> string \<times> CacheItem \<Rightarrow> state" where
  "keepOne s e =
     updateMemorySize (fst e) (snd e) None
       (s\<lparr>memoryCache := AList.update (fst e) (snd e) (memoryCache s)\<rparr>)"

definition reduceMemoryFootprint :: "state \<Rightarrow> state" where
  "reduceMemoryFootprint s =
     (let currentSize = length (memoryCache s)
      in if currentSize \<le> 50 then s
         else let itemsToKeep =
                    take 75 (filter (\<lambda>(_, item). priority item = High \<or> priority item = Medium)
                                    (memoryCache s))
              in foldl keepOne (s\<lparr>memoryCache := [], currentMemorySize := 0\<rparr>) itemsToKeep)"

definition handleAppStateChange :: "AppStateStatus \<Rightarrow> state \<Rightarrow> state" where
  "handleAppStateChange nextAppState s =
     (if nextAppState = Background \<or> nextAppState = Inactive then reduceMemoryFootprint s else s)"

section \<open>Start-up\<close>

text \<open>One iteration of the hydration loop; its inner \<^verbatim>\<open>catch\<close> only logs.\<close>

definition loadItem :: "(io_op \<Rightarrow> bool) \<Rightarrow> int \<Rightarrow> state \<Rightarrow> string \<Rightarrow> state" where
  "loadItem io now s key =
     (if io (GetItem key) then s
      else case map_of (asyncStorage s) key of
             None \<Rightarrow> s
           | Some Corrupt \<Rightarrow> s
           | Some (Stored parsedItem) \<Rightarrow>
               if priority parsedItem = High \<and> \<not> isExpired now parsedItem then
                 (if canAddToMemory s key parsedItem then
                    updateMemorySize key parsedItem None
                      (s\<lparr>memoryCache := AList.update key parsedItem (memoryCache s)\<rparr>)
                  else s)
               else s)"

definition loadPersistedHighPriorityItems :: "(io_op \<Rightarrow> bool) \<Rightarrow> int \<Rightarrow> state \<Rightarrow> state" where
  "loadPersistedHighPriorityItems io now s =
     (if io GetAllKeys then s
      else let allKeys = map fst (asyncStorage s);
               cacheKeys = filter startsWith_cache allKeys
           in foldl (loadItem io now) s cacheKeys)"

text \<open>
  \<^verbatim>\<open>Math.floor(maxSize * 0.6)\<close> is taken as the exact \<open>\<lfloor>3 * maxSize / 5\<rfloor>\<close>.
\<close>

definition optimizeForPlatform :: "bool \<Rightarrow> state \<Rightarrow> state" where
  "optimizeForPlatform web s =
     (if web then s\<lparr>maxMemorySize := 100 * 1024 * 1024\<rparr>
      else s\<lparr>maxMemorySize := 25 * 1024 * 1024,
             configs := map (\<lambda>(n, c). (n, c\<lparr>maxSize := (maxSize c * 3) div 5\<rparr>)) (configs s)\<rparr>)"

definition initialize :: "bool \<Rightarrow> (io_op \<Rightarrow> bool) \<Rightarrow> int \<Rightarrow> state \<Rightarrow> state" where
  "initialize web io now s =
     (if isInitialized s then s
      else (optimizeForPlatform web (loadPersistedHighPriorityItems io now s))
             \<lparr>isInitialized := True\<rparr>)"

section \<open>The public operations\<close>

definition count_miss :: "state \<Rightarrow> state" where
  "count_miss s = s\<lparr>cacheStats := (cacheStats s)\<lparr>misses := misses (cacheStats s) + 1\<rparr>\<rparr>"

definition count_hit :: "state \<Rightarrow> state" where
  "count_hit s = s\<lparr>cacheStats := (cacheStats s)\<lparr>hits := hits (cacheStats s) + 1\<rparr>\<rparr>"

definition count_error :: "state \<Rightarrow> state" where
  "count_error s = s\<lparr>cacheStats := (cacheStats s)\<lparr>errors := errors (cacheStats s) + 1\<rparr>\<rparr>"

definition count_request :: "state \<Rightarrow> state" where
  "count_request s =
     s\<lparr>cacheStats := (cacheStats s)\<lparr>totalRequests := totalRequests (cacheStats s) + 1\<rparr>\<rparr>"

text \<open>
  The \<^verbatim>\<open>try\<close> block of \<^verbatim>\<open>get\<close>: \<open>Inl s\<close> when something throws in state \<open>s\<close>,
  \<open>Inr (result, s)\<close> when it returns.
\<close>

definition get_try ::
  "(io_op \<Rightarrow> bool) \<Rightarrow> int \<Rightarrow> string \<Rightarrow> string \<Rightarrow> state \<Rightarrow> state + (jsvalue option \<times> state)" where
  "get_try io now namespace cacheKey s =
     (case map_of (memoryCache s) cacheKey of
        Some memoryItem \<Rightarrow>
          if isExpired now memoryItem then
            Inr (None, updateMemorySize cacheKey memoryItem None
                         (s\<lparr>memoryCache := AList.delete cacheKey (memoryCache s)\<rparr>))
          else
            Inr (Some (data memoryItem),
                 count_hit (s\<lparr>memoryCache :=
                                AList.update cacheKey (updateAccess now memoryItem) (memoryCache s)\<rparr>))
      | None \<Rightarrow>
          let config = getConfig s namespace
          in if persist config then
               (if io (GetItem cacheKey) then Inl s
                else case map_of (asyncStorage s) cacheKey of
                       None \<Rightarrow> Inr (None, count_miss s)
                     | Some Corrupt \<Rightarrow> Inl s
                     | Some (Stored parsedItem) \<Rightarrow>
                         if \<not> isExpired now parsedItem then
                           Inr (Some (data parsedItem),
                                count_hit
                                  (if canAddToMemory s cacheKey parsedItem then
                                     updateMemorySize cacheKey parsedItem None
                                       (s\<lparr>memoryCache :=
                                            AList.update cacheKey parsedItem (memoryCache s)\<rparr>)
                                   else s))
                         else if io (RemoveItem cacheKey) then Inl s
                         else Inr (None,
                                   count_miss
                                     (s\<lparr>asyncStorage := AList.delete cacheKey (asyncStorage s)\<rparr>)))
             else Inr (None, count_miss s))"

definition get ::
  "bool \<Rightarrow> (io_op \<Rightarrow> bool) \<Rightarrow> int \<Rightarrow> string \<Rightarrow> string \<Rightarrow> state \<Rightarrow> jsvalue option \<times> state" where
  "get web io now namespace key s =
     (let s1 = (if \<not> isInitialized s then initialize web io now s else s);
          s2 = count_request s1;
          cacheKey = generateKey namespace key
      in case get_try io now namespace cacheKey s2 of
           Inr r \<Rightarrow> r
         | Inl s3 \<Rightarrow> (None, count_error s3))"

definition newItem :: "CacheConfig \<Rightarrow> int \<Rightarrow> jsvalue \<Rightarrow> CacheItem" where
  "newItem config now d =
     \<lparr>data = d, timestamp = now, ttl = cfg_ttl config, priority = cfg_priority config,
      accessCount = 1, lastAccessed = now, item_size = Some (estimateSize d)\<rparr>"

text \<open>
  \<^verbatim>\<open>set\<close>. \<^verbatim>\<open>JSON.stringify(cacheItem)\<close> throws exactly when the payload is
  unserialisable; it is evaluated before \<^verbatim>\<open>AsyncStorage.setItem\<close> is called. What is
  written parses back to the item itself (\<open>Stored cacheItem\<close>).
\<close>

definition set_item ::
  "bool \<Rightarrow> (io_op \<Rightarrow> bool) \<Rightarrow> int \<Rightarrow> string \<Rightarrow> string \<Rightarrow> jsvalue \<Rightarrow> state \<Rightarrow> bool \<times> state" where
  "set_item web io now namespace key d s =
     (let s1 = (if \<not> isInitialized s then initialize web io now s else s);
          cacheKey = generateKey namespace key;
          config = getConfig s1 namespace;
          cacheItem = newItem config now d;
          oldItem = map_of (memoryCache s1) cacheKey;
          s2 = (if canAddToMemory s1 cacheKey cacheItem then
                  evictItems namespace (maxSize config)
                    (updateMemorySize cacheKey cacheItem oldItem
                       (s1\<lparr>memoryCache := AList.update cacheKey cacheItem (memoryCache s1)\<rparr>))
                else s1)
      in if persist config then
           (if d = Unserializable \<or> io (SetItem cacheKey) then (False, count_error s2)
            else (True, s2\<lparr>asyncStorage := AList.update cacheKey (Stored cacheItem) (asyncStorage s2)\<rparr>))
         else (True, s2))"

definition remove_item :: "(io_op \<Rightarrow> bool) \<Rightarrow> string \<Rightarrow> string \<Rightarrow> state \<Rightarrow> bool \<times> state" where
  "remove_item io namespace key s =
     (let cacheKey = generateKey namespace key;
          oldItem = map_of (memoryCache s) cacheKey;
          s1 = s\<lparr>memoryCache := AList.delete cacheKey (memoryCache s)\<rparr>;
          s2 = (case oldItem of Some old \<Rightarrow> updateMemorySize cacheKey old None s1 | None \<Rightarrow> s1);
          config = getConfig s2 namespace
      in if persist config then
           (if io (RemoveItem cacheKey) then (False, count_error s2)
            else (True, s2\<lparr>asyncStorage := AList.delete cacheKey (asyncStorage s2)\<rparr>))
         else (True, s2))"

definition clearOne :: "state \<Rightarrow> string \<Rightarrow> state" where
  "clearOne s key =
     (let item = map_of (memoryCache s) key;
          s1 = s\<lparr>memoryCache := AList.delete key (memoryCache s)\<rparr>
      in case item of Some i \<Rightarrow> updateMemorySize key i None s1 | None \<Rightarrow> s1)"

definition clearNamespace :: "(io_op \<Rightarrow> bool) \<Rightarrow> string \<Rightarrow> state \<Rightarrow> bool \<times> state" where
  "clearNamespace io namespace s =
     (let keysToRemove = filter (\<lambda>key. getNamespaceFromKey key = namespace) (map fst (memoryCache s));
          s1 = foldl clearOne s keysToRemove;
          config = getConfig s1 namespace
      in if persist config then
           (if io GetAllKeys then (False, count_error s1)
            else let allKeys = map fst (asyncStorage s1);
                     namespacePersistentKeys =
                       filter (\<lambda>key. getNamespaceFromKey key = namespace) allKeys
                 in if length namespacePersistentKeys > 0 then
                      (if io MultiRemove then (False, count_error s1)
                       else (True, s1\<lparr>asyncStorage :=
                                        filter (\<lambda>(k, _). k \<notin> set namespacePersistentKeys)
                                               (asyncStorage s1)\<rparr>))
                    else (True, s1))
         else (True, s1))"

section \<open>Notions used in the statements\<close>

text \<open>The second \<open>:\<close>-separated segment of a key, when there is one.\<close>

definition secondSegment :: "string \<Rightarrow> string option" where
  "secondSegment key = (case split_colon key of _ # p # _ \<Rightarrow> Some p | _ \<Rightarrow> None)"

text \<open>The hot-tier step of \<open>set_item\<close> on the initialised state, named for the proofs.\<close>

definition admit_step :: "string \<Rightarrow> string \<Rightarrow> CacheItem \<Rightarrow> state \<Rightarrow> state" where
  "admit_step ns k item s1 =
     (if canAddToMemory s1 k item then
        evictItems ns (maxSize (getConfig s1 ns))
          (updateMemorySize k item (map_of (memoryCache s1) k)
             (s1\<lparr>memoryCache := AList.update k item (memoryCache s1)\<rparr>))
      else s1)"

text \<open>The service after the hydration loop has scanned the given keys, in order.\<close>

definition scanned :: "(io_op \<Rightarrow> bool) \<Rightarrow> int \<Rightarrow> state \<Rightarrow> string list \<Rightarrow> state" where
  "scanned io now s keys = foldl (loadItem io now) s keys"

section \<open>Example environments and states\<close>

text \<open>An environment in which no \<^verbatim>\<open>AsyncStorage\<close> call throws.\<close>

definition no_failure :: "io_op \<Rightarrow> bool" where
  "no_failure op = False"

text \<open>An environment in which only removing the given key throws.\<close>

definition remove_fails :: "string \<Rightarrow> io_op \<Rightarrow> bool" where
  "remove_fails k op = (op = RemoveItem k)"

definition example_item :: "Priority \<Rightarrow> int \<Rightarrow> CacheItem" where
  "example_item p sz =
     \<lparr>data = Json ''1'', timestamp = 0, ttl = 1000, priority = p, accessCount = 1,
      lastAccessed = 0, item_size = Some sz\<rparr>"

text \<open>Sixty resident items, every third of low priority.\<close>

definition crowded_service :: state where
  "crowded_service =
     (new_service [])
       \<lparr>memoryCache :=
          map (\<lambda>n. (''cache:images:'' @ replicate n CHR ''x'',
                     example_item (if n mod 3 = 0 then Low else if n mod 3 = 1 then Medium else High) 1))
              [0..<60],
        isInitialized := True,
        currentMemorySize := 60\<rparr>"

text \<open>
  A web service after one write of a 100 MB payload into \<open>images\<close>: the hot tier is
  filled to the byte budget.
\<close>

definition big_payload :: jsvalue where
  "big_payload = Json (replicate (100 * 1024 * 1024) CHR ''x'')"

definition full_budget_service :: state where
  "full_budget_service =
     snd (set_item True no_failure 0 ''images'' ''big'' big_payload (new_service []))"

text \<open>A web service after one write into \<open>user\<close>, whose cap is one item.\<close>

definition one_user_service :: state where
  "one_user_service = snd (set_item True no_failure 0 ''user'' ''a'' (Json ''1'') (new_service []))"

text \<open>
  A durable store holding a record written at time 0 with a ttl of 1000 (expired at any
  later time beyond 1000), an unparsable record, a key of another component, and a
  medium-priority record.
\<close>

definition stale_store :: "(string \<times> persisted) list" where
  "stale_store =
     [(''cache:user:a'', Stored (example_item High 1)),
      (''cache:user:b'', Corrupt),
      (''session:user:token'', Corrupt),
      (''cache:services:c'', Stored (example_item Medium 1))]"

text \<open>A durable store holding a high-priority record and a medium-priority one.\<close>

definition fresh_store :: "(string \<times> persisted) list" where
  "fresh_store =
     [(''cache:user:a'', Stored (example_item High 1)),
      (''cache:services:c'', Stored (example_item Medium 1))]"

section \<open>Auxiliary facts\<close>

lemma init_if:
  "(if \<not> isInitialized s then initialize web io now s else s) = initialize web io now s"
  by (simp add: initialize_def)

lemma isInitialized_initialize: "isInitialized (initialize web io now s)"
  by (simp add: initialize_def)

lemma getConfig_cong: "configs s = configs t \<Longrightarrow> getConfig s = getConfig t"
  by (rule ext) (simp add: getConfig_def)

subsection \<open>Eviction\<close>

lemma set_insert_by: "set (insert_by cmp x ys) = insert x (set ys)"
  by (induction ys) auto

lemma set_sort_by: "set (sort_by cmp xs) = set xs"
  by (induction xs) (simp_all add: sort_by_def set_insert_by)

lemma evictOne_fields:
  "asyncStorage (evictOne s e) = asyncStorage s"
  "configs (evictOne s e) = configs s"
  "isInitialized (evictOne s e) = isInitialized s"
  "errors (cacheStats (evictOne s e)) = errors (cacheStats s)"
  "memoryCache (evictOne s e) = AList.delete (fst e) (memoryCache s)"
  by (simp_all add: evictOne_def updateMemorySize_def Let_def)

lemma foldl_evictOne_fields:
  "asyncStorage (foldl evictOne s xs) = asyncStorage s"
  "configs (foldl evictOne s xs) = configs s"
  "isInitialized (foldl evictOne s xs) = isInitialized s"
  "errors (cacheStats (foldl evictOne s xs)) = errors (cacheStats s)"
  by (induction xs arbitrary: s) (simp_all add: evictOne_fields)

lemma map_of_foldl_evictOne:
  "k \<notin> fst ` set xs \<Longrightarrow> map_of (memoryCache (foldl evictOne s xs)) k = map_of (memoryCache s) k"
  by (induction xs arbitrary: s) (auto simp: evictOne_fields AList.delete_conv)

lemma evictItems_fields:
  "asyncStorage (evictItems ns m s) = asyncStorage s"
  "configs (evictItems ns m s) = configs s"
  "isInitialized (evictItems ns m s) = isInitialized s"
  "errors (cacheStats (evictItems ns m s)) = errors (cacheStats s)"
  by (simp_all add: evictItems_def Let_def foldl_evictOne_fields)

lemma evictItems_noop: "length (namespaceItems s ns) \<le> m \<Longrightarrow> evictItems ns m s = s"
  by (simp add: evictItems_def)

lemma namespaceItems_key: "(k, item) \<in> set (namespaceItems s ns) \<Longrightarrow> getNamespaceFromKey k = ns"
  by (auto simp: namespaceItems_def)

lemma evictItems_other_namespace:
  assumes "getNamespaceFromKey k \<noteq> ns"
  shows "map_of (memoryCache (evictItems ns m s)) k = map_of (memoryCache s) k"
proof (cases "length (namespaceItems s ns) \<le> m")
  case True
  then show ?thesis by (simp add: evictItems_noop)
next
  case False
  let ?victims = "take (length (namespaceItems s ns) - m) (sort_by compareItems (namespaceItems s ns))"
  have "set ?victims \<subseteq> set (namespaceItems s ns)"
    using set_take_subset [of _ "sort_by compareItems (namespaceItems s ns)"]
    by (simp add: set_sort_by)
  then have "k \<notin> fst ` set ?victims"
    using assms namespaceItems_key by fastforce
  then have "map_of (memoryCache (foldl evictOne s ?victims)) k = map_of (memoryCache s) k"
    by (rule map_of_foldl_evictOne)
  with False show ?thesis by (simp add: evictItems_def Let_def)
qed

subsection \<open>Admission\<close>

lemma length_filter_update:
  "length (filter P (AList.update k v al)) \<le> Suc (length (filter P al))"
  by (induction al) auto

lemma admitted_resident:
  assumes "canAddToMemory s k item"
  shows "map_of (memoryCache (evictItems ns (maxSize (getConfig s ns))
            (updateMemorySize k item old (s\<lparr>memoryCache := AList.update k item (memoryCache s)\<rparr>)))) k
         = Some item"
proof -
  let ?t = "updateMemorySize k item old (s\<lparr>memoryCache := AList.update k item (memoryCache s)\<rparr>)"
  have mc: "memoryCache ?t = AList.update k item (memoryCache s)"
    by (simp add: updateMemorySize_def Let_def)
  have here: "map_of (memoryCache ?t) k = Some item"
    by (simp add: mc AList.update_conv')
  show ?thesis
  proof (cases "getNamespaceFromKey k = ns")
    case True
    from assms True have "length (namespaceItems s ns) < maxSize (getConfig s ns)"
      by (simp add: canAddToMemory_def Let_def split: if_splits)
    moreover have "length (namespaceItems ?t ns) \<le> Suc (length (namespaceItems s ns))"
      by (simp add: namespaceItems_def mc length_filter_update)
    ultimately have "length (namespaceItems ?t ns) \<le> maxSize (getConfig s ns)"
      by simp
    then show ?thesis using here by (simp add: evictItems_noop)
  next
    case False
    then show ?thesis using here by (simp add: evictItems_other_namespace)
  qed
qed

lemma set_item_initialized: "isInitialized (snd (set_item web io now ns key d s))"
  by (simp add: set_item_def init_if Let_def isInitialized_initialize evictItems_fields
      updateMemorySize_def count_error_def)

lemma set_item_configs:
  "configs (snd (set_item web io now ns key d s)) = configs (initialize web io now s)"
  by (simp add: set_item_def init_if Let_def evictItems_fields updateMemorySize_def count_error_def)

subsection \<open>Evaluation at concrete inputs\<close>

lemmas eval_defs = set_item_def remove_item_def new_service_def initialize_def loadPersistedHighPriorityItems_def
     optimizeForPlatform_def no_failure_def generateKey_def getConfig_def CACHE_CONFIGS_def newItem_def
     canAddToMemory_def namespaceItems_def sizeOf_def estimateSize_def updateMemorySize_def evictItems_def
     AList.delete_eq Let_def get_def get_try_def count_request_def count_hit_def count_miss_def count_error_def
     isExpired_def updateAccess_def

lemma namespace_examples:
  "getNamespaceFromKey ''cache:shops:a'' = ''shops''"
  "getNamespaceFromKey ''cache:shops:k'' = ''shops''"
  "getNamespaceFromKey ''cache:user:a'' = ''user''"
  "getNamespaceFromKey ''cache:user:b'' = ''user''"
  "getNamespaceFromKey ''cache:user:k'' = ''user''"
  "getNamespaceFromKey ''cache:services:c'' = ''services''"
  "getNamespaceFromKey ''cache:images:big'' = ''images''"
  "getNamespaceFromKey ''session:user:token'' = ''user''"
  by (simp_all add: getNamespaceFromKey_def)

subsection \<open>Footprint\<close>

lemma memoryCache_keepOne:
  "memoryCache (foldl keepOne s xs) = foldl (\<lambda>m e. AList.update (fst e) (snd e) m) (memoryCache s) xs"
  by (induction xs arbitrary: s) (simp_all add: keepOne_def updateMemorySize_def)

lemma set_update_subset: "set (AList.update k v al) \<subseteq> insert (k, v) (set al)"
  by (induction al) auto

lemma length_update_le: "length (AList.update k v al) \<le> Suc (length al)"
  by (induction al) auto

lemma set_foldl_update:
  "set (foldl (\<lambda>m e. AList.update (fst e) (snd e) m) m0 xs) \<subseteq> set m0 \<union> set xs"
proof (induction xs arbitrary: m0)
  case Nil
  show ?case by simp
next
  case (Cons e es)
  have "set (AList.update (fst e) (snd e) m0) \<subseteq> insert e (set m0)"
    using set_update_subset [of "fst e" "snd e" m0] by simp
  with Cons [of "AList.update (fst e) (snd e) m0"] show ?case by auto
qed

lemma length_foldl_update:
  "length (foldl (\<lambda>m e. AList.update (fst e) (snd e) m) m0 xs) \<le> length m0 + length xs"
proof (induction xs arbitrary: m0)
  case Nil
  show ?case by simp
next
  case (Cons e es)
  from Cons [of "AList.update (fst e) (snd e) m0"] length_update_le [of "fst e" "snd e" m0]
  show ?case by simp
qed

lemma reduceMemoryFootprint_small:
  "length (memoryCache s) \<le> 50 \<Longrightarrow> reduceMemoryFootprint s = s"
  by (simp add: reduceMemoryFootprint_def)

lemma reduceMemoryFootprint_big:
  "50 < length (memoryCache s) \<Longrightarrow>
     memoryCache (reduceMemoryFootprint s) =
       foldl (\<lambda>m e. AList.update (fst e) (snd e) m) []
         (take 75 (filter (\<lambda>(_, item). priority item = High \<or> priority item = Medium) (memoryCache s)))"
  by (simp add: reduceMemoryFootprint_def memoryCache_keepOne)

lemma reduceMemoryFootprint_length:
  assumes "50 < length (memoryCache s)"
  shows "length (memoryCache (reduceMemoryFootprint s)) \<le> 75"
proof -
  let ?keep = "take 75 (filter (\<lambda>(_, item). priority item = High \<or> priority item = Medium) (memoryCache s))"
  have "length (foldl (\<lambda>m e. AList.update (fst e) (snd e) m) [] ?keep) \<le> length ?keep"
    using length_foldl_update [of "[]" ?keep] by simp
  also have "\<dots> \<le> 75" by simp
  finally show ?thesis using assms by (simp only: reduceMemoryFootprint_big)
qed

lemma reduceMemoryFootprint_priorities:
  assumes "50 < length (memoryCache s)" and "(k, item) \<in> set (memoryCache (reduceMemoryFootprint s))"
  shows "priority item = High \<or> priority item = Medium"
proof -
  let ?kept = "filter (\<lambda>(_, item). priority item = High \<or> priority item = Medium) (memoryCache s)"
  have "(k, item) \<in> set (foldl (\<lambda>m e. AList.update (fst e) (snd e) m) [] (take 75 ?kept))"
    using assms by (simp only: reduceMemoryFootprint_big)
  then have "(k, item) \<in> set (take 75 ?kept)"
    using set_foldl_update [of "[]" "take 75 ?kept"] by auto
  then have "(k, item) \<in> set ?kept"
    by (rule in_set_takeD)
  then show ?thesis by simp
qed

subsection \<open>The parts of \<open>set_item\<close>\<close>

lemma count_error_fields:
  "memoryCache (count_error s) = memoryCache s"
  "asyncStorage (count_error s) = asyncStorage s"
  "currentMemorySize (count_error s) = currentMemorySize s"
  "configs (count_error s) = configs s"
  "isInitialized (count_error s) = isInitialized s"
  "errors (cacheStats (count_error s)) = errors (cacheStats s) + 1"
  by (simp_all add: count_error_def)

lemma updateMemorySize_fields:
  "memoryCache (updateMemorySize k item old s) = memoryCache s"
  "asyncStorage (updateMemorySize k item old s) = asyncStorage s"
  "configs (updateMemorySize k item old s) = configs s"
  "isInitialized (updateMemorySize k item old s) = isInitialized s"
  "cacheStats (updateMemorySize k item old s) = cacheStats s"
  by (simp_all add: updateMemorySize_def Let_def)

lemma set_item_unfold:
  "set_item web io now ns key d s =
     (let s1 = initialize web io now s;
          k = generateKey ns key;
          cfg = getConfig s1 ns;
          item = newItem cfg now d;
          s2 = admit_step ns k item s1
      in if persist cfg then
           (if d = Unserializable \<or> io (SetItem k) then (False, count_error s2)
            else (True, s2\<lparr>asyncStorage := AList.update k (Stored item) (asyncStorage s2)\<rparr>))
         else (True, s2))"
  by (simp add: set_item_def init_if admit_step_def Let_def)

lemma admit_step_fields:
  "asyncStorage (admit_step ns k item s) = asyncStorage s"
  "configs (admit_step ns k item s) = configs s"
  "isInitialized (admit_step ns k item s) = isInitialized s"
  "errors (cacheStats (admit_step ns k item s)) = errors (cacheStats s)"
  by (simp_all add: admit_step_def evictItems_fields updateMemorySize_fields)

lemma admit_step_admitted:
  "canAddToMemory s k item \<Longrightarrow> map_of (memoryCache (admit_step ns k item s)) k = Some item"
  by (simp add: admit_step_def admitted_resident)

lemma admit_step_refused: "\<not> canAddToMemory s k item \<Longrightarrow> admit_step ns k item s = s"
  by (simp add: admit_step_def)

lemma set_item_result:
  "fst (set_item web io now ns key d s) =
     (\<not> (persist (getConfig (initialize web io now s) ns) \<and>
         (d = Unserializable \<or> io (SetItem (generateKey ns key)))))"
  by (simp add: set_item_unfold Let_def)

lemma set_item_memoryCache:
  "memoryCache (snd (set_item web io now ns key d s)) =
     memoryCache (admit_step ns (generateKey ns key)
       (newItem (getConfig (initialize web io now s) ns) now d) (initialize web io now s))"
  by (simp add: set_item_unfold Let_def count_error_fields)

lemma set_item_errors:
  "errors (cacheStats (snd (set_item web io now ns key d s))) =
     errors (cacheStats (initialize web io now s)) +
       (if fst (set_item web io now ns key d s) then 0 else 1)"
  by (simp add: set_item_unfold Let_def count_error_fields admit_step_fields)

lemma one_user_service_eval:
  "one_user_service =
     \<lparr>memoryCache = [(''cache:user:a'', newItem \<lparr>cfg_ttl = 86400000, maxSize = 1, cfg_priority = High, persist = True\<rparr> 0 (Json ''1''))],
      cacheStats = \<lparr>hits = 0, misses = 0, evictions = 0, totalRequests = 0, errors = 0\<rparr>,
      isInitialized = True,
      maxMemorySize = 104857600,
      currentMemorySize = 1,
      configs = CACHE_CONFIGS,
      asyncStorage = [(''cache:user:a'', Stored (newItem \<lparr>cfg_ttl = 86400000, maxSize = 1, cfg_priority = High, persist = True\<rparr> 0 (Json ''1'')))]\<rparr>"
  by (simp add: one_user_service_def eval_defs namespace_examples)

lemma full_budget_service_eval:
  "full_budget_service =
     \<lparr>memoryCache = [(''cache:images:big'', newItem \<lparr>cfg_ttl = 3600000, maxSize = 50, cfg_priority = Medium, persist = False\<rparr> 0 big_payload)],
      cacheStats = \<lparr>hits = 0, misses = 0, evictions = 0, totalRequests = 0, errors = 0\<rparr>,
      isInitialized = True,
      maxMemorySize = 104857600,
      currentMemorySize = 104857600,
      configs = CACHE_CONFIGS,
      asyncStorage = []\<rparr>"
  by (simp add: full_budget_service_def big_payload_def eval_defs namespace_examples)

lemma set_item_currentMemorySize:
  "currentMemorySize (snd (set_item web io now ns key d s)) =
     currentMemorySize (admit_step ns (generateKey ns key)
       (newItem (getConfig (initialize web io now s) ns) now d) (initialize web io now s))"
  by (simp add: set_item_unfold Let_def count_error_fields)

lemma set_item_asyncStorage:
  "asyncStorage (snd (set_item web io now ns key d s)) =
     (if persist (getConfig (initialize web io now s) ns) \<and> d \<noteq> Unserializable \<and>
         \<not> io (SetItem (generateKey ns key))
      then AList.update (generateKey ns key)
             (Stored (newItem (getConfig (initialize web io now s) ns) now d))
             (asyncStorage (initialize web io now s))
      else asyncStorage (initialize web io now s))"
  by (simp add: set_item_unfold Let_def count_error_fields admit_step_fields)

lemma full_namespace_refuses:
  assumes "k \<in> fst ` set (namespaceItems s ns)"
      and "length (namespaceItems s ns) = maxSize (getConfig s ns)"
  shows "\<not> canAddToMemory s k item"
proof -
  from assms(1) obtain old where "(k, old) \<in> set (namespaceItems s ns)" by auto
  then have "getNamespaceFromKey k = ns" by (rule namespaceItems_key)
  with assms(2) show ?thesis by (simp add: canAddToMemory_def)
qed

subsection \<open>The parts of \<open>get\<close>\<close>

lemma initialize_id: "isInitialized s \<Longrightarrow> initialize web io now s = s"
  by (simp add: initialize_def)

lemma count_request_fields:
  "memoryCache (count_request s) = memoryCache s"
  "asyncStorage (count_request s) = asyncStorage s"
  "configs (count_request s) = configs s"
  "currentMemorySize (count_request s) = currentMemorySize s"
  "maxMemorySize (count_request s) = maxMemorySize s"
  by (simp_all add: count_request_def)

lemma getConfig_count_request: "getConfig (count_request s) = getConfig s"
  by (rule getConfig_cong) (simp add: count_request_fields)

lemma get_unfold:
  "get web io now ns key s =
     (case get_try io now ns (generateKey ns key) (count_request (initialize web io now s)) of
        Inr r \<Rightarrow> r
      | Inl s3 \<Rightarrow> (None, count_error s3))"
  by (simp add: get_def init_if Let_def)

lemma get_try_hot_fresh:
  assumes "map_of (memoryCache s) k = Some item" and "\<not> isExpired now item"
  shows "\<exists>s'. get_try io now ns k s = Inr (Some (data item), s')"
  using assms by (simp add: get_try_def)

lemma get_try_hot_expired:
  assumes "map_of (memoryCache s) k = Some item" and "isExpired now item"
  shows "\<exists>s'. get_try io now ns k s = Inr (None, s') \<and> map_of (memoryCache s') k = None"
  using assms by (simp add: get_try_def updateMemorySize_fields AList.delete_conv)

lemma get_try_durable_fresh:
  assumes "map_of (memoryCache s) k = None" and "persist (getConfig s ns)" and "\<not> io (GetItem k)"
      and "map_of (asyncStorage s) k = Some (Stored item)" and "\<not> isExpired now item"
  shows "\<exists>s'. get_try io now ns k s = Inr (Some (data item), s')"
  using assms by (simp add: get_try_def)

lemma get_try_durable_expired:
  assumes "map_of (memoryCache s) k = None" and "persist (getConfig s ns)" and "\<not> io (GetItem k)"
      and "map_of (asyncStorage s) k = Some (Stored item)" and "isExpired now item"
  shows "get_try io now ns k s =
           (if io (RemoveItem k) then Inl s
            else Inr (None, count_miss (s\<lparr>asyncStorage := AList.delete k (asyncStorage s)\<rparr>)))"
  using assms by (simp add: get_try_def)

lemma get_try_value:
  assumes "get_try io now ns k s = Inr (Some x, s')"
  shows "\<exists>item. (map_of (memoryCache s) k = Some item \<or>
                  (map_of (memoryCache s) k = None \<and> map_of (asyncStorage s) k = Some (Stored item)))
               \<and> data item = x \<and> \<not> isExpired now item"
proof (cases "map_of (memoryCache s) k")
  case (Some memoryItem)
  with assms show ?thesis
    by (auto simp: get_try_def split: if_splits)
next
  case None
  with assms show ?thesis
    by (auto simp: get_try_def Let_def count_miss_def split: if_splits option.splits persisted.splits)
qed

lemma isExpired_newItem: "isExpired now' (newItem cfg now d) = (now' - now > cfg_ttl cfg)"
  by (simp add: isExpired_def newItem_def)

lemma data_newItem: "data (newItem cfg now d) = d"
  by (simp add: newItem_def)

lemma count_miss_fields:
  "memoryCache (count_miss s) = memoryCache s"
  "asyncStorage (count_miss s) = asyncStorage s"
  by (simp_all add: count_miss_def)

lemma get_value_origin:
  assumes "fst (get web io now ns key s) = Some x"
  shows "\<exists>item. (map_of (memoryCache (initialize web io now s)) (generateKey ns key) = Some item \<or>
                  (map_of (memoryCache (initialize web io now s)) (generateKey ns key) = None \<and>
                   map_of (asyncStorage (initialize web io now s)) (generateKey ns key) = Some (Stored item)))
               \<and> data item = x \<and> now - timestamp item \<le> ttl item"
proof -
  let ?t = "count_request (initialize web io now s)"
  from assms obtain s' where "get_try io now ns (generateKey ns key) ?t = Inr (Some x, s')"
    by (cases "get_try io now ns (generateKey ns key) ?t") (auto simp: get_unfold)
  from get_try_value [OF this] show ?thesis
    by (simp add: count_request_fields isExpired_def not_less)
qed

lemma get_hot_expired:
  assumes "map_of (memoryCache (initialize web io now s)) (generateKey ns key) = Some item"
      and "now - timestamp item > ttl item"
  shows "fst (get web io now ns key s) = None \<and>
         map_of (memoryCache (snd (get web io now ns key s))) (generateKey ns key) = None"
proof -
  let ?t = "count_request (initialize web io now s)"
  have "map_of (memoryCache ?t) (generateKey ns key) = Some item"
    using assms(1) by (simp add: count_request_fields)
  moreover have "isExpired now item"
    using assms(2) by (simp add: isExpired_def)
  ultimately obtain s' where "get_try io now ns (generateKey ns key) ?t = Inr (None, s')"
    and "map_of (memoryCache s') (generateKey ns key) = None"
    using get_try_hot_expired by blast
  then show ?thesis by (simp add: get_unfold)
qed

lemma get_durable_expired:
  assumes "map_of (memoryCache (initialize web io now s)) (generateKey ns key) = None"
      and "persist (getConfig (initialize web io now s) ns)"
      and "\<not> io (GetItem (generateKey ns key))"
      and "map_of (asyncStorage (initialize web io now s)) (generateKey ns key) = Some (Stored item)"
      and "now - timestamp item > ttl item"
  shows "fst (get web io now ns key s) = None \<and>
         (\<not> io (RemoveItem (generateKey ns key)) \<longrightarrow>
            map_of (asyncStorage (snd (get web io now ns key s))) (generateKey ns key) = None)"
proof -
  let ?t = "count_request (initialize web io now s)"
  let ?k = "generateKey ns key"
  have "get_try io now ns ?k ?t =
           (if io (RemoveItem ?k) then Inl ?t
            else Inr (None, count_miss (?t\<lparr>asyncStorage := AList.delete ?k (asyncStorage ?t)\<rparr>)))"
    using assms
    by (intro get_try_durable_expired)
       (simp_all add: count_request_fields getConfig_count_request isExpired_def)
  then show ?thesis
    by (simp add: get_unfold count_miss_fields AList.delete_conv)
qed

subsection \<open>Hydration\<close>

lemma loadItem_asyncStorage: "asyncStorage (loadItem io now s key) = asyncStorage s"
  by (simp add: loadItem_def updateMemorySize_fields split: option.splits persisted.splits)

lemma scanned_asyncStorage: "asyncStorage (scanned io now s keys) = asyncStorage s"
  unfolding scanned_def
  by (induction keys arbitrary: s) (simp_all add: loadItem_asyncStorage)

lemma scanned_snoc: "scanned io now s (pre @ [key]) = loadItem io now (scanned io now s pre) key"
  by (simp add: scanned_def)

lemma loadPersisted_scanned:
  "\<not> io GetAllKeys \<Longrightarrow>
     loadPersistedHighPriorityItems io now s
       = scanned io now s (filter startsWith_cache (map fst (asyncStorage s)))"
  by (simp add: loadPersistedHighPriorityItems_def scanned_def)

lemma loadPersisted_asyncStorage:
  "asyncStorage (loadPersistedHighPriorityItems io now s) = asyncStorage s"
proof (cases "io GetAllKeys")
  case True
  then show ?thesis by (simp add: loadPersistedHighPriorityItems_def)
next
  case False
  then show ?thesis by (simp add: loadPersisted_scanned scanned_asyncStorage)
qed

lemma loadItem_admits:
  assumes "\<not> io (GetItem key)" and "map_of (asyncStorage s) key = Some (Stored item)"
      and "priority item = High" and "\<not> isExpired now item" and "canAddToMemory s key item"
  shows "memoryCache (loadItem io now s key) = AList.update key item (memoryCache s)"
    and "currentMemorySize (loadItem io now s key) = currentMemorySize s + sizeOf item"
  using assms by (simp_all add: loadItem_def updateMemorySize_def)

lemma loadItem_skips:
  assumes "\<not> (\<exists>item. \<not> io (GetItem key) \<and> map_of (asyncStorage s) key = Some (Stored item) \<and>
                  priority item = High \<and> \<not> isExpired now item \<and> canAddToMemory s key item)"
  shows "loadItem io now s key = s"
  using assms by (auto simp: loadItem_def split: option.splits persisted.splits)

lemma loadItem_entries:
  "map_of (memoryCache (loadItem io now s key)) k = map_of (memoryCache s) k \<or>
   (k = key \<and> (\<exists>item. map_of (memoryCache (loadItem io now s key)) k = Some item \<and>
        map_of (asyncStorage s) k = Some (Stored item) \<and> priority item = High \<and> \<not> isExpired now item))"
  by (auto simp: loadItem_def updateMemorySize_fields AList.update_conv'
      split: option.splits persisted.splits)

lemma scanned_entries:
  "map_of (memoryCache (scanned io now s keys)) k = map_of (memoryCache s) k \<or>
   (k \<in> set keys \<and> (\<exists>item. map_of (memoryCache (scanned io now s keys)) k = Some item \<and>
        map_of (asyncStorage s) k = Some (Stored item) \<and> priority item = High \<and> \<not> isExpired now item))"
proof (induction keys rule: rev_induct)
  case Nil
  show ?case by (simp add: scanned_def)
next
  case (snoc key keys)
  let ?sk = "scanned io now s keys"
  from loadItem_entries [of io now ?sk key k] snoc
  show ?case
    by (auto simp: scanned_snoc scanned_asyncStorage)
qed

subsection \<open>Clearing a namespace\<close>

lemma clearOne_fields:
  "asyncStorage (clearOne s key) = asyncStorage s"
  "configs (clearOne s key) = configs s"
  by (simp_all add: clearOne_def Let_def updateMemorySize_fields split: option.splits)

lemma foldl_clearOne_fields:
  "asyncStorage (foldl clearOne s keys) = asyncStorage s"
  "configs (foldl clearOne s keys) = configs s"
  by (induction keys arbitrary: s) (simp_all add: clearOne_fields)

lemma getNamespace_secondSegment:
  assumes "ns \<noteq> []" and "ns \<noteq> ''default''"
  shows "(getNamespaceFromKey k = ns) = (secondSegment k = Some ns)"
  using assms
  by (auto simp: getNamespaceFromKey_def secondSegment_def split: list.splits)

lemma persisting_namespace_known:
  assumes "persist (getConfig s ns)"
  shows "ns \<in> set (map fst (configs s))"
proof (cases "map_of (configs s) ns")
  case None
  with assms show ?thesis by (simp add: getConfig_def)
next
  case (Some c)
  then have "(ns, c) \<in> set (configs s)" by (rule map_of_SomeD)
  then show ?thesis by force
qed

lemma multiRemove_filter:
  "filter (\<lambda>(k, _). k \<notin> set (filter P (map fst al))) al = filter (\<lambda>(k, _). \<not> P k) al"
proof (rule filter_cong)
  fix e
  assume "e \<in> set al"
  then have "fst e \<in> set (map fst al)" by simp
  then show "(case e of (k, _) \<Rightarrow> k \<notin> set (filter P (map fst al))) = (case e of (k, _) \<Rightarrow> \<not> P k)"
    by (cases e) simp
qed simp

lemma filter_none_removed:
  "filter P (map fst al) = [] \<Longrightarrow> filter (\<lambda>(k, _). \<not> P k) al = al"
  by (induction al) (auto split: if_splits)

lemma clearNamespace_asyncStorage:
  assumes "persist (getConfig s ns)" and "\<not> io GetAllKeys" and "\<not> io MultiRemove"
  shows "asyncStorage (snd (clearNamespace io ns s))
           = filter (\<lambda>(k, _). \<not> (getNamespaceFromKey k = ns)) (asyncStorage s)"
    and "fst (clearNamespace io ns s)"
proof -
  let ?P = "\<lambda>key. getNamespaceFromKey key = ns"
  let ?s1 = "foldl clearOne s (filter ?P (map fst (memoryCache s)))"
  let ?keys = "filter ?P (map fst (asyncStorage s))"
  have cfg: "getConfig ?s1 ns = getConfig s ns"
    by (simp add: getConfig_cong [OF foldl_clearOne_fields(2)])
  have st: "asyncStorage ?s1 = asyncStorage s"
    by (rule foldl_clearOne_fields)
  have unfold: "clearNamespace io ns s =
      (if length ?keys > 0 then
         (True, ?s1\<lparr>asyncStorage := filter (\<lambda>(k, _). k \<notin> set ?keys) (asyncStorage s)\<rparr>)
       else (True, ?s1))"
    using assms by (simp only: clearNamespace_def Let_def cfg st if_True if_False)
  show "asyncStorage (snd (clearNamespace io ns s))
           = filter (\<lambda>(k, _). \<not> (getNamespaceFromKey k = ns)) (asyncStorage s)"
  proof (cases "0 < length ?keys")
    case False
    then have none: "?keys = []" by (simp only: length_greater_0_conv not_not)
    have "clearNamespace io ns s = (True, ?s1)"
      unfolding unfold using False by (simp only: if_False)
    then have "asyncStorage (snd (clearNamespace io ns s)) = asyncStorage s"
      by (simp only: snd_conv st)
    also have "\<dots> = filter (\<lambda>(k, _). \<not> ?P k) (asyncStorage s)"
      using filter_none_removed [OF none] by (rule sym)
    finally show ?thesis .
  next
    case True
    have "clearNamespace io ns s =
        (True, ?s1\<lparr>asyncStorage := filter (\<lambda>(k, _). k \<notin> set ?keys) (asyncStorage s)\<rparr>)"
      unfolding unfold using True by (simp only: if_True)
    then have "asyncStorage (snd (clearNamespace io ns s))
        = filter (\<lambda>(k, _). k \<notin> set ?keys) (asyncStorage s)"
      by simp
    also have "\<dots> = filter (\<lambda>(k, _). \<not> ?P k) (asyncStorage s)"
      by (rule multiRemove_filter)
    finally show ?thesis .
  qed
  show "fst (clearNamespace io ns s)"
    unfolding unfold by simp
qed

subsection \<open>Namespaces of keys\<close>

lemma split_colon_nonempty: "split_colon k \<noteq> []"
  by (induction k) (auto split: list.splits)

lemma split_colon_segments: "p \<in> set (split_colon k) \<Longrightarrow> CHR '':'' \<notin> set p"
proof (induction k arbitrary: p)
  case Nil
  then show ?case by simp
next
  case (Cons c cs)
  show ?case
  proof (cases "c = CHR '':''")
    case True
    with Cons show ?thesis by auto
  next
    case False
    obtain q qs where q: "split_colon cs = q # qs"
      using split_colon_nonempty [of cs] by (cases "split_colon cs") auto
    with Cons.prems False have "p = c # q \<or> p \<in> set qs" by auto
    then show ?thesis
    proof
      assume "p = c # q"
      moreover have "CHR '':'' \<notin> set q" using Cons.IH [of q] q by simp
      ultimately show ?thesis using False by auto
    next
      assume "p \<in> set qs"
      then show ?thesis using Cons.IH [of p] q by simp
    qed
  qed
qed

lemma getNamespaceFromKey_simple:
  "getNamespaceFromKey k \<noteq> [] \<and> CHR '':'' \<notin> set (getNamespaceFromKey k)"
proof (cases "split_colon k")
  case Nil
  then show ?thesis by (simp add: getNamespaceFromKey_def)
next
  case (Cons a ps)
  show ?thesis
  proof (cases ps)
    case Nil
    with Cons show ?thesis by (simp add: getNamespaceFromKey_def)
  next
    case (Cons p rest)
    with \<open>split_colon k = a # ps\<close> have "p \<in> set (split_colon k)" by simp
    then have "CHR '':'' \<notin> set p" by (rule split_colon_segments)
    with Cons \<open>split_colon k = a # ps\<close> show ?thesis
      by (simp add: getNamespaceFromKey_def)
  qed
qed

lemma split_colon_prefix:
  "CHR '':'' \<notin> set p \<Longrightarrow> split_colon (p @ CHR '':'' # rest) = p # split_colon rest"
  by (induction p) auto

lemma getNamespaceFromKey_generateKey:
  assumes "ns \<noteq> []" and "CHR '':'' \<notin> set ns"
  shows "getNamespaceFromKey (generateKey ns key) = ns"
proof -
  have "generateKey ns key = ''cache'' @ CHR '':'' # (ns @ CHR '':'' # key)"
    by (simp add: generateKey_def)
  then have "split_colon (generateKey ns key) = ''cache'' # split_colon (ns @ CHR '':'' # key)"
    by (simp only: split_colon_prefix) simp
  also have "\<dots> = ''cache'' # ns # split_colon key"
    using assms(2) by (simp add: split_colon_prefix)
  finally show ?thesis using assms(1)
    by (simp add: getNamespaceFromKey_def)
qed

lemma namespaceItems_foreign:
  assumes "ns = [] \<or> CHR '':'' \<in> set ns"
  shows "namespaceItems s ns = []"
proof -
  have "getNamespaceFromKey k \<noteq> ns" for k
    using getNamespaceFromKey_simple [of k] assms by auto
  then show ?thesis by (simp add: namespaceItems_def)
qed

text \<open>\<open>set_item\<close> never evicts: after an accepted insertion the namespace is within its cap.\<close>

lemma admit_step_eviction_noop:
  "admit_step ns (generateKey ns key) item s =
     (if canAddToMemory s (generateKey ns key) item then
        updateMemorySize (generateKey ns key) item (map_of (memoryCache s) (generateKey ns key))
          (s\<lparr>memoryCache := AList.update (generateKey ns key) item (memoryCache s)\<rparr>)
      else s)"
proof (cases "canAddToMemory s (generateKey ns key) item")
  case False
  then show ?thesis by (simp add: admit_step_def)
next
  case True
  let ?k = "generateKey ns key"
  let ?t = "updateMemorySize ?k item (map_of (memoryCache s) ?k)
              (s\<lparr>memoryCache := AList.update ?k item (memoryCache s)\<rparr>)"
  have "length (namespaceItems ?t ns) \<le> maxSize (getConfig s ns)"
  proof (cases "ns = [] \<or> CHR '':'' \<in> set ns")
    case True
    then show ?thesis by (simp add: namespaceItems_foreign)
  next
    case False
    then have g: "getNamespaceFromKey ?k = ns"
      by (simp add: getNamespaceFromKey_generateKey)
    from True g have "length (namespaceItems s ns) < maxSize (getConfig s ns)"
      by (simp add: canAddToMemory_def Let_def split: if_splits)
    moreover have "length (namespaceItems ?t ns) \<le> Suc (length (namespaceItems s ns))"
      by (simp add: namespaceItems_def updateMemorySize_fields length_filter_update)
    ultimately show ?thesis by simp
  qed
  then have "evictItems ns (maxSize (getConfig s ns)) ?t = ?t"
    by (rule evictItems_noop)
  with True show ?thesis by (simp add: admit_step_def)
qed

lemma set_item_never_evicts:
  "evictions (cacheStats (snd (set_item web io now ns key d s)))
     = evictions (cacheStats (initialize web io now s))"
  by (simp add: set_item_unfold Let_def admit_step_eviction_noop updateMemorySize_fields
      count_error_def)

text \<open>Removing a resident key adds its size to the byte counter.\<close>

lemma remove_item_adds_size:
  assumes "map_of (memoryCache s) (generateKey ns key) = Some old"
  shows "currentMemorySize (snd (remove_item io ns key s)) = currentMemorySize s + sizeOf old"
  using assms
  by (simp add: remove_item_def Let_def updateMemorySize_def count_error_def)

text \<open>A read of an expired resident item changes no counter but \<open>totalRequests\<close>.\<close>

lemma get_hot_expired_stats:
  assumes "map_of (memoryCache (initialize web io now s)) (generateKey ns key) = Some item"
      and "isExpired now item"
  shows "cacheStats (snd (get web io now ns key s))
           = (cacheStats (initialize web io now s))
               \<lparr>totalRequests := totalRequests (cacheStats (initialize web io now s)) + 1\<rparr>"
  using assms
  by (simp add: get_unfold get_try_def count_request_def updateMemorySize_def)

subsection \<open>The configuration table keeps its keys\<close>

lemma loadItem_configs: "configs (loadItem io now s key) = configs s"
  by (simp add: loadItem_def updateMemorySize_fields split: option.splits persisted.splits)

lemma scanned_configs: "configs (scanned io now s keys) = configs s"
  unfolding scanned_def
  by (induction keys arbitrary: s) (simp_all add: loadItem_configs)

lemma loadPersisted_configs: "configs (loadPersistedHighPriorityItems io now s) = configs s"
proof (cases "io GetAllKeys")
  case True
  then show ?thesis by (simp add: loadPersistedHighPriorityItems_def)
next
  case False
  then show ?thesis by (simp add: loadPersisted_scanned scanned_configs)
qed

lemma initialize_config_keys: "map fst (configs (initialize web io now s)) = map fst (configs s)"
  by (simp add: initialize_def optimizeForPlatform_def loadPersisted_configs case_prod_unfold comp_def)

text \<open>
  When the removal of an expired durable record throws, \<open>get\<close> reports absent, counts an
  error, and the record stays.
\<close>

lemma get_expired_removal_fails:
  "fst (get True (remove_fails ''cache:user:a'') 5000 ''user'' ''a'' (new_service stale_store)) = None \<and>
   errors (cacheStats (snd (get True (remove_fails ''cache:user:a'') 5000 ''user'' ''a''
     (new_service stale_store)))) = 1 \<and>
   map_of (asyncStorage (snd (get True (remove_fails ''cache:user:a'') 5000 ''user'' ''a''
     (new_service stale_store)))) ''cache:user:a'' = Some (Stored (example_item High 1))"
  by (simp add: stale_store_def example_item_def startsWith_cache_def loadItem_def remove_fails_def
      eval_defs)

text \<open>
  At the cap, a second write to the resident key is kept out of the hot tier, and the read
  that follows returns the value of the first write.
\<close>

lemma stale_read_at_cap:
  "fst (set_item True no_failure 1 ''user'' ''a'' (Json ''2'') one_user_service) = True \<and>
   fst (get True no_failure 2 ''user'' ''a''
          (snd (set_item True no_failure 1 ''user'' ''a'' (Json ''2'') one_user_service)))
     = Some (Json ''1'')"
  by (simp add: one_user_service_eval eval_defs namespace_examples)

section \<open>The claims\<close>

text \<open>
  C1 (size accounting). The claim: after every operation the byte counter equals the sum of
  the sizes of the resident items. On the code a \<^verbatim>\<open>set\<close> followed by a \<^verbatim>\<open>remove\<close>
  of the same key, starting from the empty cache, leaves the hot tier empty (sum 0) and the
  counter at twice the item's size: \<^verbatim>\<open>updateMemorySize(key, item)\<close> without an old
  item adds the size where the source's comment says it subtracts.
\<close>

theorem size_counter_after_remove:
  "(let s1 = snd (set_item True no_failure 0 ''shops'' ''a'' (Json ''123'') (new_service []));
        s2 = snd (remove_item no_failure ''shops'' ''a'' s1)
    in memoryCache s2 = [] \<and> sum_list (map (\<lambda>(k, item). sizeOf item) (memoryCache s2)) = 0
       \<and> currentMemorySize s1 = 3 \<and> currentMemorySize s2 = 6)"
  by (simp add: eval_defs namespace_examples)

text \<open>
  C2 (admission cap). The claim: after \<open>maxSize + 1\<close> distinct keys the key that is not
  resident is the least by the eviction comparator. On the code, with namespace \<open>user\<close>
  (cap 1), key \<open>a\<close> written at time 0 and key \<open>b\<close> at time 1: exactly one item is resident,
  and it is \<open>a\<close>, which the comparator places before \<open>b\<close> (older access); the newest key
  \<open>b\<close> is the one kept out, and nothing is evicted (\<open>set_item_never_evicts\<close>: the
  admission check refuses the insertion that would take the namespace over its cap, so the
  eviction that follows an insertion never has anything to remove).
\<close>

theorem cap_refuses_newest_key:
  "(let s1 = snd (set_item True no_failure 0 ''user'' ''a'' (Json ''1'') (new_service []));
        s2 = snd (set_item True no_failure 1 ''user'' ''b'' (Json ''2'') s1);
        cfg = getConfig s1 ''user''
    in maxSize cfg = 1
       \<and> memoryCache s2 = [(''cache:user:a'', newItem cfg 0 (Json ''1''))]
       \<and> compareItems (''cache:user:a'', newItem cfg 0 (Json ''1''))
                       (''cache:user:b'', newItem cfg 1 (Json ''2'')) < 0
       \<and> evictions (cacheStats s2) = 0)"
  by (simp add: eval_defs namespace_examples compareItems_def priorityOrder_def)

text \<open>
  C3 (expiration). \<^verbatim>\<open>get\<close> never returns the payload of an item whose age exceeds its
  ttl: a value it returns is the payload of the resident item, or of the durable record when
  nothing is resident, and that item's age is within its ttl. A resident item found expired
  is removed from the hot tier and absent is reported. A durable record found expired makes
  \<^verbatim>\<open>get\<close> report absent, and the record is removed from the durable store whenever
  the removal call itself does not throw. (\<open>s1\<close> is the state the lookup runs in: the state
  itself once the service is initialised.)
\<close>

theorem get_expiration:
  "(let s1 = initialize web io now s;
        k = generateKey ns key;
        r = get web io now ns key s
    in (\<forall>x. fst r = Some x \<longrightarrow>
          (\<exists>item. (map_of (memoryCache s1) k = Some item \<or>
                   (map_of (memoryCache s1) k = None \<and> map_of (asyncStorage s1) k = Some (Stored item)))
                \<and> data item = x \<and> now - timestamp item \<le> ttl item)) \<and>
       (\<forall>item. map_of (memoryCache s1) k = Some item \<and> now - timestamp item > ttl item \<longrightarrow>
          fst r = None \<and> map_of (memoryCache (snd r)) k = None) \<and>
       (\<forall>item. map_of (memoryCache s1) k = None \<and> persist (getConfig s1 ns) \<and> \<not> io (GetItem k) \<and>
               map_of (asyncStorage s1) k = Some (Stored item) \<and> now - timestamp item > ttl item \<longrightarrow>
          fst r = None \<and> (\<not> io (RemoveItem k) \<longrightarrow> map_of (asyncStorage (snd r)) k = None)))"
  unfolding Let_def
  using get_value_origin [of web io now ns key s] get_hot_expired [of web io now s ns key]
    get_durable_expired [of web io now s ns key]
  by blast

theorem get_expiration_witness:
  "fst (get True no_failure 5000 ''user'' ''a'' (new_service stale_store)) = None \<and>
   map_of (asyncStorage (snd (get True no_failure 5000 ''user'' ''a'' (new_service stale_store))))
     ''cache:user:a'' = None \<and>
   fst (get True no_failure 86400002 ''user'' ''a'' one_user_service) = None \<and>
   map_of (memoryCache (snd (get True no_failure 86400002 ''user'' ''a'' one_user_service)))
     ''cache:user:a'' = None"
proof -
  let ?item = "newItem \<lparr>cfg_ttl = 86400000, maxSize = 1, cfg_priority = High, persist = True\<rparr> 0 (Json ''1'')"
  have hot: "map_of (memoryCache (initialize True no_failure 86400002 one_user_service))
               (generateKey ''user'' ''a'') = Some ?item \<and> 86400002 - timestamp ?item > ttl ?item"
    by (simp add: one_user_service_eval initialize_def generateKey_def newItem_def)
  have init: "initialize True no_failure 5000 (new_service stale_store)
               = (new_service stale_store)\<lparr>maxMemorySize := 104857600, isInitialized := True\<rparr>"
    by (simp add: stale_store_def example_item_def startsWith_cache_def loadItem_def eval_defs)
  have cold: "map_of (memoryCache (initialize True no_failure 5000 (new_service stale_store)))
                (generateKey ''user'' ''a'') = None \<and>
              persist (getConfig (initialize True no_failure 5000 (new_service stale_store)) ''user'') \<and>
              \<not> no_failure (GetItem (generateKey ''user'' ''a'')) \<and>
              map_of (asyncStorage (initialize True no_failure 5000 (new_service stale_store)))
                (generateKey ''user'' ''a'') = Some (Stored (example_item High 1)) \<and>
              5000 - timestamp (example_item High 1) > ttl (example_item High 1)"
    unfolding init
    by (simp add: new_service_def stale_store_def example_item_def getConfig_def CACHE_CONFIGS_def
        generateKey_def no_failure_def)
  have nf: "\<not> no_failure (RemoveItem (generateKey ''user'' ''a''))"
    by (simp add: no_failure_def)
  have key: "generateKey ''user'' ''a'' = ''cache:user:a''"
    by (simp add: generateKey_def)
  from get_expiration [of True no_failure 86400002 one_user_service "''user''" "''a''"] hot
  have "fst (get True no_failure 86400002 ''user'' ''a'' one_user_service) = None \<and>
        map_of (memoryCache (snd (get True no_failure 86400002 ''user'' ''a'' one_user_service)))
          (generateKey ''user'' ''a'') = None"
    unfolding Let_def by blast
  moreover
  from get_expiration [of True no_failure 5000 "new_service stale_store" "''user''" "''a''"] cold nf
  have "fst (get True no_failure 5000 ''user'' ''a'' (new_service stale_store)) = None \<and>
        map_of (asyncStorage (snd (get True no_failure 5000 ''user'' ''a'' (new_service stale_store))))
          (generateKey ''user'' ''a'') = None"
    unfolding Let_def by blast
  ultimately show ?thesis unfolding key by blast
qed

text \<open>
  C4 (statistics of \<^verbatim>\<open>get\<close>). The claim: every call counts exactly one of hit, miss or
  error. On the code a read of a resident item whose ttl has elapsed returns absent and
  counts none of the three; only \<open>totalRequests\<close> moves.
\<close>

theorem expired_hot_read_counts_nothing:
  "(let s1 = snd (set_item True no_failure 0 ''shops'' ''a'' (Json ''1'') (new_service []));
        r = get True no_failure 3600001 ''shops'' ''a'' s1
    in fst r = None
       \<and> cacheStats s1 = \<lparr>hits = 0, misses = 0, evictions = 0, totalRequests = 0, errors = 0\<rparr>
       \<and> cacheStats (snd r) = \<lparr>hits = 0, misses = 0, evictions = 0, totalRequests = 1, errors = 0\<rparr>)"
  by (simp add: eval_defs namespace_examples)

text \<open>
  C5 (failure contract of \<^verbatim>\<open>set\<close>), as the code has it. \<^verbatim>\<open>set\<close> returns false exactly
  when the namespace persists and the write-through fails (the payload cannot be serialised,
  or \<^verbatim>\<open>AsyncStorage.setItem\<close> throws), and then counts one error. Hot-tier admission is
  decided before the write-through and does not depend on it: when the admission check
  accepts the new item (an unserialisable payload is sized at 1024 bytes) the key is
  resident with the new item afterwards, and when it refuses, the hot tier is unchanged
  and the result is still decided by the write-through alone.
\<close>

theorem set_failure_contract:
  "(let s1 = initialize web io now s;
        k = generateKey ns key;
        cfg = getConfig s1 ns;
        item = newItem cfg now d;
        r = set_item web io now ns key d s
    in (\<not> fst r) = (persist cfg \<and> (d = Unserializable \<or> io (SetItem k))) \<and>
       errors (cacheStats (snd r)) = errors (cacheStats s1) + (if fst r then 0 else 1) \<and>
       (canAddToMemory s1 k item \<longrightarrow> map_of (memoryCache (snd r)) k = Some item) \<and>
       (\<not> canAddToMemory s1 k item \<longrightarrow> memoryCache (snd r) = memoryCache s1))"
  unfolding Let_def
proof (intro conjI impI)
  show "(\<not> fst (set_item web io now ns key d s)) =
        (persist (getConfig (initialize web io now s) ns) \<and>
         (d = Unserializable \<or> io (SetItem (generateKey ns key))))"
    by (simp add: set_item_result)
  show "errors (cacheStats (snd (set_item web io now ns key d s))) =
        errors (cacheStats (initialize web io now s)) +
        (if fst (set_item web io now ns key d s) then 0 else 1)"
    by (rule set_item_errors)
next
  assume "canAddToMemory (initialize web io now s) (generateKey ns key)
            (newItem (getConfig (initialize web io now s) ns) now d)"
  then show "map_of (memoryCache (snd (set_item web io now ns key d s))) (generateKey ns key) =
             Some (newItem (getConfig (initialize web io now s) ns) now d)"
    by (simp add: set_item_memoryCache admit_step_admitted)
next
  assume "\<not> canAddToMemory (initialize web io now s) (generateKey ns key)
            (newItem (getConfig (initialize web io now s) ns) now d)"
  then show "memoryCache (snd (set_item web io now ns key d s)) = memoryCache (initialize web io now s)"
    by (simp add: set_item_memoryCache admit_step_refused)
qed

text \<open>
  The claim as stated fails: an unserialisable payload written to the non-persisting
  \<open>shops\<close> returns true, counts no error and is admitted; written to the persisting
  \<open>user\<close> it returns false but is admitted all the same.
\<close>

theorem unserializable_value_counterexample:
  "fst (set_item True no_failure 0 ''shops'' ''a'' Unserializable (new_service [])) = True \<and>
   map fst (memoryCache (snd (set_item True no_failure 0 ''shops'' ''a'' Unserializable (new_service []))))
     = [''cache:shops:a''] \<and>
   errors (cacheStats (snd (set_item True no_failure 0 ''shops'' ''a'' Unserializable (new_service [])))) = 0 \<and>
   fst (set_item True no_failure 0 ''user'' ''a'' Unserializable (new_service [])) = False \<and>
   map fst (memoryCache (snd (set_item True no_failure 0 ''user'' ''a'' Unserializable (new_service []))))
     = [''cache:user:a'']"
  by (simp add: eval_defs namespace_examples)

theorem set_failure_contract_witness:
  "\<not> fst (set_item True no_failure 0 ''user'' ''a'' Unserializable (new_service [])) \<and>
   errors (cacheStats (snd (set_item True no_failure 0 ''user'' ''a'' Unserializable (new_service [])))) = 1 \<and>
   map_of (memoryCache (snd (set_item True no_failure 0 ''user'' ''a'' Unserializable (new_service []))))
      ''cache:user:a''
     = Some (newItem \<lparr>cfg_ttl = 86400000, maxSize = 1, cfg_priority = High, persist = True\<rparr> 0 Unserializable) \<and>
   fst (set_item True no_failure 1 ''user'' ''b'' (Json ''2'') one_user_service) \<and>
   memoryCache (snd (set_item True no_failure 1 ''user'' ''b'' (Json ''2'') one_user_service))
     = memoryCache one_user_service"
  using set_failure_contract [of True no_failure 0 "new_service []" "''user''" "''a''" Unserializable]
    set_failure_contract [of True no_failure 1 one_user_service "''user''" "''b''" "Json ''2''"]
  by (simp add: one_user_service_eval eval_defs namespace_examples)

text \<open>
  C6 (read your write), as the code has it. A \<^verbatim>\<open>set\<close> of a serialisable value followed
  by a \<^verbatim>\<open>get\<close> of the same key, no later than the namespace's ttl after the write,
  returns the value written, provided the write reached a tier the read consults: either
  the admission check accepted the new item into the hot tier, or the key was not resident,
  the namespace persists and the durable write and read do not fail.
\<close>

theorem read_your_write:
  assumes "now' - now \<le> cfg_ttl (getConfig (initialize web io now s) ns)"
      and "canAddToMemory (initialize web io now s) (generateKey ns key)
             (newItem (getConfig (initialize web io now s) ns) now (Json v))
           \<or> (persist (getConfig (initialize web io now s) ns) \<and>
               map_of (memoryCache (initialize web io now s)) (generateKey ns key) = None \<and>
               \<not> io (SetItem (generateKey ns key)) \<and> \<not> io' (GetItem (generateKey ns key)))"
  shows "fst (get web' io' now' ns key (snd (set_item web io now ns key (Json v) s))) = Some (Json v)"
proof -
  let ?s1 = "initialize web io now s"
  let ?k = "generateKey ns key"
  let ?cfg = "getConfig ?s1 ns"
  let ?item = "newItem ?cfg now (Json v)"
  let ?s2 = "snd (set_item web io now ns key (Json v) s)"
  let ?t = "count_request (initialize web' io' now' ?s2)"
  have init: "initialize web' io' now' ?s2 = ?s2"
    by (rule initialize_id) (rule set_item_initialized)
  have fresh: "\<not> isExpired now' ?item"
    using assms(1) by (simp add: isExpired_newItem)
  have "\<exists>s'. get_try io' now' ns ?k ?t = Inr (Some (data ?item), s')"
  proof (cases "canAddToMemory ?s1 ?k ?item")
    case True
    then have "map_of (memoryCache ?t) ?k = Some ?item"
      by (simp add: init count_request_fields set_item_memoryCache admit_step_admitted)
    then show ?thesis using fresh by (rule get_try_hot_fresh)
  next
    case False
    with assms(2) have p: "persist ?cfg" and absent: "map_of (memoryCache ?s1) ?k = None"
      and w: "\<not> io (SetItem ?k)" and r: "\<not> io' (GetItem ?k)"
      by auto
    have hot: "map_of (memoryCache ?t) ?k = None"
      using False absent
      by (simp add: init count_request_fields set_item_memoryCache admit_step_refused)
    have cfg: "getConfig ?t ns = ?cfg"
      by (simp add: init getConfig_count_request getConfig_cong [OF set_item_configs])
    have stored: "map_of (asyncStorage ?t) ?k = Some (Stored ?item)"
      using p w by (simp add: init count_request_fields set_item_asyncStorage AList.update_conv')
    from hot _ r stored fresh show ?thesis
      by (rule get_try_durable_fresh) (simp add: cfg p)
  qed
  then show ?thesis
    by (auto simp: get_unfold data_newItem)
qed

text \<open>
  The claim as stated fails: with the hot tier at its byte budget, a write to the
  non-persisting \<open>shops\<close> succeeds and is cached nowhere, and the read that follows
  reports absent.
\<close>

theorem byte_budget_counterexample:
  "fst (set_item True no_failure 0 ''shops'' ''k'' (Json ''1'') full_budget_service) = True \<and>
   fst (get True no_failure 1 ''shops'' ''k''
          (snd (set_item True no_failure 0 ''shops'' ''k'' (Json ''1'') full_budget_service))) = None"
  by (simp add: full_budget_service_eval big_payload_def eval_defs namespace_examples)

theorem read_your_write_witness:
  "fst (get True no_failure 5 ''shops'' ''a''
          (snd (set_item True no_failure 0 ''shops'' ''a'' (Json ''1'') (new_service [])))) = Some (Json ''1'') \<and>
   fst (get True no_failure 5 ''user'' ''b''
          (snd (set_item True no_failure 1 ''user'' ''b'' (Json ''2'') one_user_service))) = Some (Json ''2'')"
proof -
  have a1: "5 - 0 \<le> cfg_ttl (getConfig (initialize True no_failure 0 (new_service [])) ''shops'')"
    by (simp add: eval_defs)
  have a2: "canAddToMemory (initialize True no_failure 0 (new_service [])) (generateKey ''shops'' ''a'')
             (newItem (getConfig (initialize True no_failure 0 (new_service [])) ''shops'') 0 (Json ''1''))"
    by (simp add: eval_defs namespace_examples)
  have b1: "5 - 1 \<le> cfg_ttl (getConfig (initialize True no_failure 1 one_user_service) ''user'')"
    by (simp add: one_user_service_eval eval_defs)
  have b2: "persist (getConfig (initialize True no_failure 1 one_user_service) ''user'') \<and>
               map_of (memoryCache (initialize True no_failure 1 one_user_service)) (generateKey ''user'' ''b'') = None \<and>
               \<not> no_failure (SetItem (generateKey ''user'' ''b'')) \<and> \<not> no_failure (GetItem (generateKey ''user'' ''b''))"
    by (simp add: one_user_service_eval eval_defs)
  from read_your_write [of 5 0 True no_failure "new_service []" "''shops''" "''a''" "''1''" no_failure True]
    a1 a2
  have "fst (get True no_failure 5 ''shops'' ''a''
          (snd (set_item True no_failure 0 ''shops'' ''a'' (Json ''1'') (new_service [])))) = Some (Json ''1'')"
    by blast
  moreover
  from read_your_write [of 5 1 True no_failure one_user_service "''user''" "''b''" "''2''" no_failure True]
    b1 b2
  have "fst (get True no_failure 5 ''user'' ''b''
          (snd (set_item True no_failure 1 ''user'' ''b'' (Json ''2'') one_user_service))) = Some (Json ''2'')"
    by blast
  ultimately show ?thesis by blast
qed

text \<open>
  C7 (hydration pass), as the code has it. The pass never changes the durable store:
  expired or unparsable records are skipped, not removed. Every hot-tier entry it creates
  or replaces is a high-priority, unexpired record stored under a key that starts with
  \<open>cache:\<close>. Unless listing the keys fails, the pass scans exactly the durable keys that
  start with \<open>cache:\<close>, in the store's order. A scanned record is admitted into the hot
  tier if and only if it can be read and parsed, its priority is high, it is not expired
  and the admission check holds in the state reached when it is scanned; otherwise the
  scan of that key changes nothing.
\<close>

theorem hydration_pass:
  "asyncStorage (loadPersistedHighPriorityItems io now s) = asyncStorage s \<and>
   (\<forall>k. map_of (memoryCache (loadPersistedHighPriorityItems io now s)) k = map_of (memoryCache s) k \<or>
        (startsWith_cache k \<and>
         (\<exists>item. map_of (memoryCache (loadPersistedHighPriorityItems io now s)) k = Some item \<and>
            map_of (asyncStorage s) k = Some (Stored item) \<and> priority item = High \<and>
            \<not> isExpired now item))) \<and>
   (\<not> io GetAllKeys \<longrightarrow>
      loadPersistedHighPriorityItems io now s
        = scanned io now s (filter startsWith_cache (map fst (asyncStorage s)))) \<and>
   (\<forall>pre key.
      (\<forall>item. \<not> io (GetItem key) \<and> map_of (asyncStorage s) key = Some (Stored item) \<and>
              priority item = High \<and> \<not> isExpired now item \<and>
              canAddToMemory (scanned io now s pre) key item \<longrightarrow>
         memoryCache (scanned io now s (pre @ [key]))
           = AList.update key item (memoryCache (scanned io now s pre))) \<and>
      (\<not> (\<exists>item. \<not> io (GetItem key) \<and> map_of (asyncStorage s) key = Some (Stored item) \<and>
                 priority item = High \<and> \<not> isExpired now item \<and>
                 canAddToMemory (scanned io now s pre) key item) \<longrightarrow>
         scanned io now s (pre @ [key]) = scanned io now s pre))"
proof (intro conjI allI impI)
  show "asyncStorage (loadPersistedHighPriorityItems io now s) = asyncStorage s"
    by (rule loadPersisted_asyncStorage)
next
  fix k
  show "map_of (memoryCache (loadPersistedHighPriorityItems io now s)) k = map_of (memoryCache s) k \<or>
        (startsWith_cache k \<and>
         (\<exists>item. map_of (memoryCache (loadPersistedHighPriorityItems io now s)) k = Some item \<and>
            map_of (asyncStorage s) k = Some (Stored item) \<and> priority item = High \<and>
            \<not> isExpired now item))"
  proof (cases "io GetAllKeys")
    case True
    then show ?thesis by (simp add: loadPersistedHighPriorityItems_def)
  next
    case False
    from scanned_entries [of io now s "filter startsWith_cache (map fst (asyncStorage s))" k]
    show ?thesis
      using False by (auto simp: loadPersisted_scanned)
  qed
next
  assume "\<not> io GetAllKeys"
  then show "loadPersistedHighPriorityItems io now s
        = scanned io now s (filter startsWith_cache (map fst (asyncStorage s)))"
    by (rule loadPersisted_scanned)
next
  fix pre key item
  assume "\<not> io (GetItem key) \<and> map_of (asyncStorage s) key = Some (Stored item) \<and>
              priority item = High \<and> \<not> isExpired now item \<and>
              canAddToMemory (scanned io now s pre) key item"
  then show "memoryCache (scanned io now s (pre @ [key]))
           = AList.update key item (memoryCache (scanned io now s pre))"
    by (simp add: scanned_snoc loadItem_admits(1) scanned_asyncStorage)
next
  fix pre key
  assume "\<not> (\<exists>item. \<not> io (GetItem key) \<and> map_of (asyncStorage s) key = Some (Stored item) \<and>
                 priority item = High \<and> \<not> isExpired now item \<and>
                 canAddToMemory (scanned io now s pre) key item)"
  then show "scanned io now s (pre @ [key]) = scanned io now s pre"
    unfolding scanned_snoc
    by (intro loadItem_skips) (simp add: scanned_asyncStorage)
qed

text \<open>
  The claim as stated fails: at start-up over a store that holds an expired record and an
  unparsable one, both are still in the store after initialisation.
\<close>

theorem hydration_removes_nothing_counterexample:
  "isExpired 5000 (example_item High 1) \<and>
   map_of (asyncStorage (initialize True no_failure 5000 (new_service stale_store))) ''cache:user:a''
     = Some (Stored (example_item High 1)) \<and>
   map_of (asyncStorage (initialize True no_failure 5000 (new_service stale_store))) ''cache:user:b''
     = Some Corrupt"
  by (simp add: stale_store_def example_item_def startsWith_cache_def loadItem_def eval_defs)

theorem hydration_pass_witness:
  "memoryCache (loadPersistedHighPriorityItems no_failure 500 (new_service fresh_store))
     = [(''cache:user:a'', example_item High 1)] \<and>
   asyncStorage (loadPersistedHighPriorityItems no_failure 500 (new_service fresh_store)) = fresh_store"
proof -
  let ?s = "new_service fresh_store"
  note T = hydration_pass [of no_failure 500 ?s]
  have store: "asyncStorage ?s = fresh_store"
    by (simp add: new_service_def)
  have keys: "filter startsWith_cache (map fst (asyncStorage ?s)) = [] @ [''cache:user:a''] @ [''cache:services:c'']"
    unfolding store by (simp add: fresh_store_def startsWith_cache_def)
  have start: "scanned no_failure 500 ?s [] = ?s"
    by (simp add: scanned_def)
  have a: "\<not> no_failure (GetItem ''cache:user:a'') \<and>
           map_of (asyncStorage ?s) ''cache:user:a'' = Some (Stored (example_item High 1)) \<and>
           priority (example_item High 1) = High \<and> \<not> isExpired 500 (example_item High 1) \<and>
           canAddToMemory (scanned no_failure 500 ?s []) ''cache:user:a'' (example_item High 1)"
    unfolding start
    by (simp add: fresh_store_def example_item_def eval_defs namespace_examples)
  have c: "\<not> (\<exists>item. \<not> no_failure (GetItem ''cache:services:c'') \<and>
                 map_of (asyncStorage ?s) ''cache:services:c'' = Some (Stored item) \<and>
                 priority item = High \<and> \<not> isExpired 500 item \<and>
                 canAddToMemory (scanned no_failure 500 ?s ([] @ [''cache:user:a''])) ''cache:services:c'' item)"
    by (auto simp: new_service_def fresh_store_def example_item_def)
  have nf: "\<not> no_failure GetAllKeys"
    by (simp add: no_failure_def)
  from T nf have "loadPersistedHighPriorityItems no_failure 500 ?s
      = scanned no_failure 500 ?s (([] @ [''cache:user:a'']) @ [''cache:services:c''])"
    unfolding keys by simp
  also from T c have "\<dots> = scanned no_failure 500 ?s ([] @ [''cache:user:a''])"
    by blast
  finally have final: "loadPersistedHighPriorityItems no_failure 500 ?s
      = scanned no_failure 500 ?s ([] @ [''cache:user:a''])" .
  from T a have "memoryCache (scanned no_failure 500 ?s ([] @ [''cache:user:a'']))
      = AList.update ''cache:user:a'' (example_item High 1) (memoryCache (scanned no_failure 500 ?s []))"
    by blast
  then have hot: "memoryCache (loadPersistedHighPriorityItems no_failure 500 ?s)
      = [(''cache:user:a'', example_item High 1)]"
    unfolding final start by (simp add: new_service_def)
  from T have "asyncStorage (loadPersistedHighPriorityItems no_failure 500 ?s) = asyncStorage ?s"
    by blast
  with hot store show ?thesis by simp
qed

text \<open>
  C8 (footprint shrink). On a transition to background or inactive, a hot tier of more than
  50 items is cut down to at most 75 items, all of them of high or medium priority; a hot
  tier of at most 50 items is left as it is (the whole state is unchanged).
\<close>

theorem footprint_shrink:
  assumes "nextAppState = Background \<or> nextAppState = Inactive"
  shows "(50 < length (memoryCache s) \<longrightarrow>
            length (memoryCache (handleAppStateChange nextAppState s)) \<le> 75 \<and>
            (\<forall>(k, item) \<in> set (memoryCache (handleAppStateChange nextAppState s)).
               priority item = High \<or> priority item = Medium)) \<and>
         (length (memoryCache s) \<le> 50 \<longrightarrow> handleAppStateChange nextAppState s = s)"
proof -
  have eq: "handleAppStateChange nextAppState s = reduceMemoryFootprint s"
    using assms by (auto simp: handleAppStateChange_def)
  show ?thesis
    unfolding eq
    using reduceMemoryFootprint_small [of s] reduceMemoryFootprint_length [of s]
      reduceMemoryFootprint_priorities [of s]
    by blast
qed


theorem footprint_shrink_witness:
  "50 < length (memoryCache crowded_service) \<and>
   length (memoryCache (handleAppStateChange Background crowded_service)) \<le> 75 \<and>
   list_all (\<lambda>(k, item). priority item = High \<or> priority item = Medium)
     (memoryCache (handleAppStateChange Background crowded_service)) \<and>
   handleAppStateChange Inactive (new_service []) = new_service []"
proof -
  have h: "50 < length (memoryCache crowded_service)"
    by (simp add: crowded_service_def)
  have e: "length (memoryCache (new_service [])) \<le> 50"
    by (simp add: new_service_def)
  have a: "length (memoryCache (handleAppStateChange Background crowded_service)) \<le> 75"
    using footprint_shrink [of Background crowded_service] h by blast
  have b: "\<forall>(k, item) \<in> set (memoryCache (handleAppStateChange Background crowded_service)).
             priority item = High \<or> priority item = Medium"
    using footprint_shrink [of Background crowded_service] h by blast
  have c: "handleAppStateChange Inactive (new_service []) = new_service []"
    using footprint_shrink [of Inactive "new_service []"] e by blast
  from b have b': "list_all (\<lambda>(k, item). priority item = High \<or> priority item = Medium)
     (memoryCache (handleAppStateChange Background crowded_service))"
    by (simp only: list_all_iff)
  from h a b' c show ?thesis by blast
qed

text \<open>
  C9 (replacement denied at the cap). When the namespace holds exactly as many items as its
  cap allows and the key written is one of them, \<^verbatim>\<open>set\<close> leaves the whole hot tier and
  the byte counter as they were; the durable copy alone receives the new item, when the
  namespace persists (and the write-through succeeds).
\<close>

theorem replacement_denied_at_cap:
  assumes "generateKey ns key \<in> fst ` set (namespaceItems (initialize web io now s) ns)"
      and "length (namespaceItems (initialize web io now s) ns)
             = maxSize (getConfig (initialize web io now s) ns)"
  shows "(let s1 = initialize web io now s;
              k = generateKey ns key;
              cfg = getConfig s1 ns;
              r = set_item web io now ns key d s
          in memoryCache (snd r) = memoryCache s1 \<and>
             currentMemorySize (snd r) = currentMemorySize s1 \<and>
             asyncStorage (snd r) =
               (if persist cfg \<and> d \<noteq> Unserializable \<and> \<not> io (SetItem k)
                then AList.update k (Stored (newItem cfg now d)) (asyncStorage s1)
                else asyncStorage s1))"
proof -
  have "admit_step ns (generateKey ns key)
          (newItem (getConfig (initialize web io now s) ns) now d) (initialize web io now s)
        = initialize web io now s"
    using assms by (intro admit_step_refused full_namespace_refuses)
  then show ?thesis
    by (simp add: Let_def set_item_memoryCache set_item_currentMemorySize set_item_asyncStorage)
qed

theorem replacement_denied_at_cap_witness:
  "map_of (memoryCache (snd (set_item True no_failure 1 ''user'' ''a'' (Json ''2'') one_user_service)))
      ''cache:user:a''
     = Some (newItem \<lparr>cfg_ttl = 86400000, maxSize = 1, cfg_priority = High, persist = True\<rparr> 0 (Json ''1'')) \<and>
   map_of (asyncStorage (snd (set_item True no_failure 1 ''user'' ''a'' (Json ''2'') one_user_service)))
      ''cache:user:a''
     = Some (Stored (newItem \<lparr>cfg_ttl = 86400000, maxSize = 1, cfg_priority = High, persist = True\<rparr> 1 (Json ''2'')))"
proof -
  have init: "initialize True no_failure 1 one_user_service = one_user_service"
    by (simp add: initialize_def one_user_service_eval)
  have ns: "namespaceItems one_user_service ''user'' = memoryCache one_user_service"
    by (simp add: namespaceItems_def one_user_service_eval namespace_examples)
  have cfg: "getConfig one_user_service ''user''
               = \<lparr>cfg_ttl = 86400000, maxSize = 1, cfg_priority = High, persist = True\<rparr>"
    by (simp add: getConfig_def one_user_service_eval CACHE_CONFIGS_def)
  have key: "generateKey ''user'' ''a'' = ''cache:user:a''"
    by (simp add: generateKey_def)
  have h1: "generateKey ''user'' ''a'' \<in> fst ` set (namespaceItems (initialize True no_failure 1 one_user_service) ''user'')"
    by (simp add: init ns key) (simp add: one_user_service_eval)
  have h2: "length (namespaceItems (initialize True no_failure 1 one_user_service) ''user'')
             = maxSize (getConfig (initialize True no_failure 1 one_user_service) ''user'')"
    by (simp add: init ns cfg) (simp add: one_user_service_eval)
  from replacement_denied_at_cap [OF h1 h2, of "Json ''2''"]
  show ?thesis
    by (simp add: Let_def init cfg key no_failure_def) (simp add: one_user_service_eval)
qed

text \<open>
  C10 (durable keys cleared with a namespace). For a persisting namespace of the
  configuration table, when listing and removing the keys do not fail,
  \<^verbatim>\<open>clearNamespace\<close> succeeds and removes from the durable store exactly the keys
  whose second \<open>:\<close>-separated segment is the namespace, whatever their first segment: keys
  that do not start with \<open>cache:\<close> are removed too.
\<close>

theorem clearNamespace_durable_keys:
  assumes "map fst (configs s) = map fst CACHE_CONFIGS"
      and "persist (getConfig s ns)"
      and "\<not> io GetAllKeys" and "\<not> io MultiRemove"
  shows "fst (clearNamespace io ns s) \<and>
         asyncStorage (snd (clearNamespace io ns s))
           = filter (\<lambda>(k, _). secondSegment k \<noteq> Some ns) (asyncStorage s)"
proof -
  from assms(1,2) have "ns \<in> set (map fst CACHE_CONFIGS)"
    using persisting_namespace_known [of s ns] by simp
  then have "ns \<noteq> []" and "ns \<noteq> ''default''"
    by (auto simp: CACHE_CONFIGS_def)
  then have "\<And>k. (getNamespaceFromKey k = ns) = (secondSegment k = Some ns)"
    by (rule getNamespace_secondSegment)
  with clearNamespace_asyncStorage [OF assms(2,3,4)] show ?thesis by simp
qed

theorem clearNamespace_durable_keys_witness:
  "fst (clearNamespace no_failure ''user'' (new_service stale_store)) \<and>
   map fst (asyncStorage (new_service stale_store))
     = [''cache:user:a'', ''cache:user:b'', ''session:user:token'', ''cache:services:c''] \<and>
   map fst (asyncStorage (snd (clearNamespace no_failure ''user'' (new_service stale_store))))
     = [''cache:services:c'']"
proof -
  let ?s = "new_service stale_store"
  have h1: "map fst (configs ?s) = map fst CACHE_CONFIGS"
    by (simp add: new_service_def)
  have h2: "persist (getConfig ?s ''user'')"
    by (simp add: new_service_def getConfig_def CACHE_CONFIGS_def)
  have h3: "\<not> no_failure GetAllKeys" and h4: "\<not> no_failure MultiRemove"
    by (simp_all add: no_failure_def)
  have store: "asyncStorage ?s = stale_store"
    by (simp add: new_service_def)
  have seg: "secondSegment ''cache:user:a'' = Some ''user''" "secondSegment ''cache:user:b'' = Some ''user''"
    "secondSegment ''session:user:token'' = Some ''user''"
    "secondSegment ''cache:services:c'' = Some ''services''"
    by (simp_all add: secondSegment_def)
  from clearNamespace_durable_keys [OF h1 h2 h3 h4]
  show ?thesis
    by (simp add: store) (simp add: stale_store_def seg)
qed

end
